theory Spec2Isabelle
  imports Main
begin

section \<open>The reminder notification scheduler of the medical tracking dashboard\<close>

text \<open>
  The development embeds the reminder part of the dashboard's front-end script:
  \<^verbatim>\<open>playNotificationSound\<close>, \<^verbatim>\<open>initAudioContext\<close>, \<^verbatim>\<open>loadReminders\<close>, \<^verbatim>\<open>deleteReminder\<close>,
  \<^verbatim>\<open>checkReminders\<close>, \<^verbatim>\<open>sendNotification\<close> and \<^verbatim>\<open>requestNotificationPermission\<close>.

  Conventions of the embedding.
  \<^item> Time is the number of milliseconds since the epoch, an \<^typ>\<open>int\<close>. The field
    \<^verbatim>\<open>date_time\<close> of a reminder holds what \<^verbatim>\<open>new Date(reminder.date_time)\<close> evaluates to;
    \<^term>\<open>None\<close> is the invalid date, whose difference with any time is NaN and fails
    every comparison.
  \<^item> A reminder's id is kept as the text that the template \<^verbatim>\<open>${reminder.id}\<close> produces, so
    the keys of \<^verbatim>\<open>hasPlayedSound\<close> are the very strings of the script.
  \<^item> Everything the script does to the browser is an \<open>action\<close> (a toast has its message
    and its type); a function returns the
    actions it performed, in order. The answers of the browser and of the backend are
    inputs: the record \<open>host\<close> for one run of the scheduler, and the responses given
    to \<^verbatim>\<open>loadReminders\<close> and \<^verbatim>\<open>deleteReminder\<close>.
  \<^item> A JavaScript exception is the completion \<open>Threw\<close>. Calls on the DOM, \<^verbatim>\<open>fetch\<close>,
    \<^verbatim>\<open>audioContext.resume()\<close> and the \<^verbatim>\<open>Notification\<close> constructor are taken to return
    normally (the first needs the page's toast element, the next two return promises);
    the calls inside the two \<^verbatim>\<open>try\<close> blocks of \<^verbatim>\<open>playNotificationSound\<close> may throw.
  \<^item> Rendering of the lists and of the statistics is not part of the embedding.
  \<^item> Work the script defers (promise callbacks, timers) is listed with the action that
    schedules it; the scheduler itself never waits for it.
\<close>

subsection \<open>Data\<close>

record reminder =
  id_r :: string
  title :: string
  date_time :: "int option"
  notes_r :: "string option"
  notified :: bool

datatype threshold = PreAlert | DueAlert

datatype permission = Unsupported | Default | Granted | Denied

datatype completion = Normal | Threw

datatype sample_outcome = Plays | Rejects | Throws

datatype action =
    ConsoleLog string
  | ConsoleError string
  | Resume
  | Chime
  | Beep
  | BeepLater
  | SampleAttempt
  | RequestPermission "(string \<times> string) option"
  | PromptLater
  | CreateNotification string string
  | ShowToast string string
  | PutNotify string

text \<open>
  \<open>Chime\<close> is the three-note sine tone, \<open>Beep\<close> the 800 Hz beep and \<open>BeepLater\<close> the timer
  of 200 ms that plays the second beep. \<open>SampleAttempt\<close> is the construction and playing of
  the pre-encoded sample. \<open>RequestPermission\<close> is one call of
  \<^verbatim>\<open>Notification.requestPermission()\<close>, with the notification that its callback creates if
  the user grants (none for the prompt at start-up). \<open>PromptLater\<close> is the timer of 3000 ms
  that \<^verbatim>\<open>requestNotificationPermission\<close> sets.
\<close>

record host =
  permission :: permission
  contextCtor :: bool
  contextSuspended :: bool
  synthesisThrows :: bool
  sample :: sample_outcome
  notifyFails :: "string \<Rightarrow> bool"

text \<open>
  \<open>permission\<close> is \<^verbatim>\<open>Notification.permission\<close> (\<open>Unsupported\<close> when the window has no
  \<^verbatim>\<open>Notification\<close>); \<open>contextCtor\<close> tells whether constructing an audio context succeeds,
  \<open>contextSuspended\<close> whether its state is \<^verbatim>\<open>'suspended'\<close>, \<open>synthesisThrows\<close> whether the
  oscillator code throws, \<open>sample\<close> what playing the sample does, and \<open>notifyFails\<close> for
  which ids the request \<^verbatim>\<open>PUT /reminders/{id}/notify\<close> is rejected.
\<close>

record alert =
  kind :: threshold
  target :: string
  actions :: "action list"

record state =
  reminders :: "reminder list"
  hasPlayedSound :: "string set"
  audioContext :: bool

subsection \<open>Sound\<close>

definition initAudioContext :: "host \<Rightarrow> bool \<Rightarrow> bool \<times> action list" where
  "initAudioContext h ctx =
     (if contextCtor h
      then (True, [ConsoleLog ([CHR 0xE2, CHR 0x9C, CHR 0x85] @ '' Audio context initialized'')])
      else (ctx, [ConsoleLog ''Web Audio API not supported'']))"

text \<open>The body of the outer \<^verbatim>\<open>try\<close>: without a context the first call is on \<^verbatim>\<open>undefined\<close>.\<close>

definition synthesise :: "string \<Rightarrow> host \<Rightarrow> bool \<Rightarrow> completion \<times> action list" where
  "synthesise ty h ctx =
     (if \<not> ctx then (Threw, [])
      else if synthesisThrows h then (Threw, [])
      else if ty = ''urgent'' then (Normal, [Beep, BeepLater])
      else (Normal, [Chime]))"

text \<open>The body of the inner \<^verbatim>\<open>try\<close>.\<close>

definition fallbackSample :: "host \<Rightarrow> completion \<times> action list" where
  "fallbackSample h =
     (case sample h of
        Plays \<Rightarrow> (Normal, [SampleAttempt])
      | Rejects \<Rightarrow> (Normal, [SampleAttempt, ConsoleLog ''Fallback sound failed:''])
      | Throws \<Rightarrow> (Threw, [SampleAttempt]))"

definition playNotificationSound ::
  "string \<Rightarrow> host \<Rightarrow> bool \<Rightarrow> completion \<times> action list \<times> bool" where
  "playNotificationSound ty h ctx =
     (let (ctx1, a1) = (if \<not> ctx then initAudioContext h ctx else (ctx, []));
          a2 = (if ctx1 \<and> contextSuspended h then [Resume] else [])
      in case synthesise ty h ctx1 of
           (Normal, a3) \<Rightarrow> (Normal, a1 @ a2 @ a3, ctx1)
         | (Threw, a3) \<Rightarrow>
             (case fallbackSample h of
                (Normal, a4) \<Rightarrow>
                  (Normal, a1 @ a2 @ a3 @ [ConsoleError ''Error playing sound:''] @ a4, ctx1)
              | (Threw, a4) \<Rightarrow>
                  (Normal,
                   a1 @ a2 @ a3 @ [ConsoleError ''Error playing sound:''] @ a4 @
                   [ConsoleLog ''All sound playback methods failed''],
                   ctx1)))"

subsection \<open>Desktop notifications\<close>

definition createNotification :: "string \<Rightarrow> string \<Rightarrow> action list" where
  "createNotification ttl body = [CreateNotification ttl body]"

definition sendNotification :: "host \<Rightarrow> string \<Rightarrow> string \<Rightarrow> action list" where
  "sendNotification h ttl body =
     (case permission h of
        Unsupported \<Rightarrow> [ConsoleLog ''This browser does not support desktop notifications'']
      | Granted \<Rightarrow> createNotification ttl body
      | Denied \<Rightarrow> []
      | Default \<Rightarrow> [RequestPermission (Some (ttl, body))])"

text \<open>
  \<^verbatim>\<open>requestNotificationPermission\<close> tests the permission when it is called and, under
  \<open>Default\<close>, only sets a timer. The timer's function, \<open>promptTimer\<close>, runs 3000 ms later and
  requests the permission without testing it again, whatever the permission has become by
  then. The script calls \<^verbatim>\<open>requestNotificationPermission\<close> from \<^verbatim>\<open>initializeApp\<close>, which it
  arranges to run in two places (a listener for \<^verbatim>\<open>DOMContentLoaded\<close> at its start and another
  at its end); how often the page starts the application is not part of the embedding.
\<close>

definition requestNotificationPermission :: "host \<Rightarrow> action list" where
  "requestNotificationPermission h = (if permission h = Default then [PromptLater] else [])"

definition promptTimer :: "action list" where
  "promptTimer = [RequestPermission None]"

text \<open>What the callback of a permission request does once the user has answered.\<close>

definition permissionAnswered :: "permission \<Rightarrow> action \<Rightarrow> action list" where
  "permissionAnswered answer a =
     (case a of
        RequestPermission (Some (ttl, body)) \<Rightarrow>
          (if answer = Granted then createNotification ttl body else [])
      | RequestPermission None \<Rightarrow>
          (if answer = Granted
           then [ConsoleLog ([CHR 0xE2, CHR 0x9C, CHR 0x85] @ '' Notifications enabled''),
                 ShowToast ''Notifications enabled! You'll receive reminder alerts.'' ''success'']
           else [ConsoleLog ([CHR 0xE2, CHR 0x9D, CHR 0x8C] @ '' Notifications disabled''),
                 ShowToast ''Notifications disabled. You won't receive alert sounds.''
                   ''warning''])
      | _ \<Rightarrow> [])"

subsection \<open>The scheduler\<close>

definition timeDiff :: "reminder \<Rightarrow> int \<Rightarrow> int option" where
  "timeDiff r now = map_option (\<lambda>reminderTime. reminderTime - now) (date_time r)"

definition notifyServer :: "host \<Rightarrow> string \<Rightarrow> action list" where
  "notifyServer h i =
     PutNotify i #
     (if notifyFails h i then [ConsoleError ''Failed to mark reminder as notified:''] else [])"

text \<open>The function that \<^verbatim>\<open>checkReminders\<close> applies to each cached reminder.\<close>

definition checkReminder ::
  "int \<Rightarrow> host \<Rightarrow> reminder \<Rightarrow> string set \<Rightarrow> bool \<Rightarrow>
     completion \<times> alert list \<times> reminder \<times> string set \<times> bool" where
  \<open>checkReminder now h r played ctx =
     (case timeDiff r now of
        None \<Rightarrow> (Normal, [], r, played, ctx)
      | Some d \<Rightarrow>
          if 0 < d \<and> d \<le> 300000 \<and> \<not> notified r \<and> id_r r @ ''-5min'' \<notin> played then
            (case playNotificationSound ''reminder'' h ctx of
               (Threw, a, ctx') \<Rightarrow>
                 (Threw, [\<lparr>kind = PreAlert, target = id_r r, actions = a\<rparr>], r, played, ctx')
             | (Normal, a, ctx') \<Rightarrow>
                 (Normal,
                  [\<lparr>kind = PreAlert, target = id_r r,
                    actions =
                      a @
                      sendNotification h (title r) (''Reminder in 5 minutes: '' @ title r) @
                      [ShowToast ([CHR 0xE2, CHR 0x8F, CHR 0xB0] @ '' Reminder: "'' @ title r @
                                  ''" in 5 minutes!'') ''info''] @
                      notifyServer h (id_r r)\<rparr>],
                  r\<lparr>notified := True\<rparr>,
                  insert (id_r r @ ''-5min'') played,
                  ctx'))
          else if - 60000 < d \<and> d \<le> 0 \<and> id_r r @ ''-now'' \<notin> played then
            (case playNotificationSound ''urgent'' h ctx of
               (Threw, a, ctx') \<Rightarrow>
                 (Threw, [\<lparr>kind = DueAlert, target = id_r r, actions = a\<rparr>], r, played, ctx')
             | (Normal, a, ctx') \<Rightarrow>
                 (Normal,
                  [\<lparr>kind = DueAlert, target = id_r r,
                    actions =
                      a @
                      sendNotification h (title r) (''It's time: '' @ title r @ ''!'') @
                      [ShowToast ([CHR 0xF0, CHR 0x9F, CHR 0x94, CHR 0x94] @ '' Time for: "'' @
                                  title r @ ''"!'') ''info''] @
                      notifyServer h (id_r r)\<rparr>],
                  r,
                  insert (id_r r @ ''-now'') played,
                  ctx'))
          else (Normal, [], r, played, ctx))\<close>

text \<open>
  \<^verbatim>\<open>reminders.forEach\<close>: the reminders are visited in order, each one is updated in place,
  and an exception ends the visit.
\<close>

fun forEach ::
  "int \<Rightarrow> host \<Rightarrow> reminder list \<Rightarrow> string set \<Rightarrow> bool \<Rightarrow>
     completion \<times> alert list \<times> reminder list \<times> string set \<times> bool" where
  "forEach now h [] played ctx = (Normal, [], [], played, ctx)"
| "forEach now h (r # rs) played ctx =
     (case checkReminder now h r played ctx of
        (Threw, as, r', played', ctx') \<Rightarrow> (Threw, as, r' # rs, played', ctx')
      | (Normal, as, r', played', ctx') \<Rightarrow>
          (case forEach now h rs played' ctx' of
             (c, bs, rs', played'', ctx'') \<Rightarrow> (c, as @ bs, r' # rs', played'', ctx'')))"

definition checkReminders :: "int \<Rightarrow> host \<Rightarrow> state \<Rightarrow> completion \<times> alert list \<times> state" where
  "checkReminders now h s =
     (case forEach now h (reminders s) (hasPlayedSound s) (audioContext s) of
        (c, as, rs', played', ctx') \<Rightarrow>
          (c, as, s\<lparr>reminders := rs', hasPlayedSound := played', audioContext := ctx'\<rparr>))"

subsection \<open>Refreshing the cache and deleting a reminder\<close>

text \<open>A length as the template \<^verbatim>\<open>${reminders.length}\<close> prints it.\<close>

fun decimal :: "nat \<Rightarrow> string" where
  "decimal n =
     (if n < 10 then [char_of (48 + n)] else decimal (n div 10) @ [char_of (48 + n mod 10)])"

text \<open>
  \<^verbatim>\<open>loadReminders\<close> is given the outcome of \<^verbatim>\<open>GET /reminders\<close>: the reminders returned, or
  \<^term>\<open>None\<close> when the request fails, the response is not ok or its body does not parse.
\<close>

definition loadReminders :: "reminder list option \<Rightarrow> state \<Rightarrow> action list \<times> state" where
  "loadReminders response s =
     (case response of
        None \<Rightarrow>
          ([ConsoleError ([CHR 0xE2, CHR 0x9D, CHR 0x8C] @ '' Error loading reminders:''),
            ShowToast ''Failed to load reminders'' ''error''], s)
      | Some rs \<Rightarrow>
          ([ConsoleLog ([CHR 0xE2, CHR 0x9C, CHR 0x85] @ '' Loaded '' @ decimal (length rs) @
                        '' reminders'')],
           s\<lparr>reminders := rs\<rparr>))"

text \<open>
  \<^verbatim>\<open>deleteReminder\<close> is given the user's answer to the confirmation, whether
  \<^verbatim>\<open>DELETE /reminders/{id}\<close> came back ok, and the outcome of the refresh that follows.
\<close>

definition deleteReminder ::
  "string \<Rightarrow> bool \<Rightarrow> bool \<Rightarrow> reminder list option \<Rightarrow> state \<Rightarrow> action list \<times> state" where
  "deleteReminder i confirmed ok response s =
     (if \<not> confirmed then ([], s)
      else if \<not> ok then
        ([ConsoleError ([CHR 0xE2, CHR 0x9D, CHR 0x8C] @ '' Error deleting reminder:''),
          ShowToast ''Failed to delete reminder'' ''error''], s)
      else
        (case loadReminders response
                (s\<lparr>hasPlayedSound := hasPlayedSound s - {i @ ''-5min''} - {i @ ''-now''}\<rparr>) of
           (a, s') \<Rightarrow>
             (a @ [ShowToast (''Reminder deleted '' @ [CHR 0xF0, CHR 0x9F, CHR 0x97, CHR 0x91,
                                                      CHR 0xEF, CHR 0xB8, CHR 0x8F])
                     ''success''], s')))"

subsection \<open>Sessions\<close>

text \<open>
  A session is a sequence of events, each running to completion before the next: a run of
  the scheduler at some time against some host, a refresh of the cache, a deletion.
\<close>

datatype event =
    Tick int host
  | Load "reminder list option"
  | Delete string bool bool "reminder list option"

fun step :: "event \<Rightarrow> state \<Rightarrow> alert list \<times> state" where
  "step (Tick now h) s = snd (checkReminders now h s)"
| "step (Load response) s = ([], snd (loadReminders response s))"
| "step (Delete i confirmed ok response) s = ([], snd (deleteReminder i confirmed ok response s))"

fun run :: "event list \<Rightarrow> state \<Rightarrow> alert list \<times> state" where
  "run [] s = ([], s)"
| "run (e # es) s =
     (case step e s of (as, s') \<Rightarrow> (case run es s' of (bs, s'') \<Rightarrow> (as @ bs, s'')))"

definition ticks :: "(int \<times> host) list \<Rightarrow> event list" where
  "ticks ts = map (\<lambda>(now, h). Tick now h) ts"

subsection \<open>Observations\<close>

text \<open>How many alerts of a kind were dispatched for a reminder id, and the actions of all alerts.\<close>

definition dispatches :: "threshold \<Rightarrow> string \<Rightarrow> alert list \<Rightarrow> nat" where
  "dispatches k i as = length (filter (\<lambda>a. kind a = k \<and> target a = i) as)"

definition performed :: "alert list \<Rightarrow> action list" where
  "performed as = concat (map actions as)"

fun isPermissionRequest :: "action \<Rightarrow> bool" where
  "isPermissionRequest (RequestPermission _) = True"
| "isPermissionRequest _ = False"

fun isNotificationCreated :: "action \<Rightarrow> bool" where
  "isNotificationCreated (CreateNotification _ _) = True"
| "isNotificationCreated _ = False"

fun key :: "threshold \<Rightarrow> string \<Rightarrow> string" where
  "key PreAlert i = i @ ''-5min''"
| "key DueAlert i = i @ ''-now''"

abbreviation tickAlerts :: "int \<Rightarrow> host \<Rightarrow> state \<Rightarrow> alert list" where
  "tickAlerts now h s \<equiv> fst (snd (checkReminders now h s))"

abbreviation tickState :: "int \<Rightarrow> host \<Rightarrow> state \<Rightarrow> state" where
  "tickState now h s \<equiv> snd (snd (checkReminders now h s))"

text \<open>
  How many alerts a sequence of runs of the scheduler dispatches in those runs that see the
  permission \<open>Default\<close>.
\<close>

fun alertsUnderDefault :: "(int \<times> host) list \<Rightarrow> state \<Rightarrow> nat" where
  "alertsUnderDefault [] s = 0"
| "alertsUnderDefault ((now, h) # ts) s =
     (if permission h = Default then length (tickAlerts now h s) else 0) +
     alertsUnderDefault ts (tickState now h s)"

text \<open>An event that empties the tracker of a reminder's keys; an event that puts a
  reminder of that id into the cache.\<close>

fun clears :: "string \<Rightarrow> event \<Rightarrow> bool" where
  "clears i (Delete j confirmed ok response) = (j = i \<and> confirmed \<and> ok)"
| "clears i _ = False"

fun returns :: "string \<Rightarrow> event \<Rightarrow> bool" where
  "returns i (Load (Some rs)) = (i \<in> id_r ` set rs)"
| "returns i (Delete j confirmed ok (Some rs)) = (confirmed \<and> ok \<and> i \<in> id_r ` set rs)"
| "returns i _ = False"

fun isSound :: "action \<Rightarrow> bool" where
  "isSound Chime = True"
| "isSound Beep = True"
| "isSound SampleAttempt = True"
| "isSound _ = False"

fun isAudio :: "action \<Rightarrow> bool" where
  "isAudio (RequestPermission _) = False"
| "isAudio PromptLater = False"
| "isAudio (CreateNotification _ _) = False"
| "isAudio (ShowToast _ _) = False"
| "isAudio (PutNotify _) = False"
| "isAudio _ = True"

fun isPut :: "action \<Rightarrow> bool" where
  "isPut (PutNotify _) = True"
| "isPut _ = False"

text \<open>
  What every dispatched alert consists of: an attempt at sound, one request to the server for
  the alert's own reminder, and the notification call that the permission allows.
\<close>

definition complete :: "host \<Rightarrow> alert \<Rightarrow> bool" where
  "complete h a \<longleftrightarrow>
     list_ex isSound (actions a) \<and>
     filter isPut (actions a) = [PutNotify (target a)] \<and>
     length (filter isPermissionRequest (actions a)) = (if permission h = Default then 1 else 0) \<and>
     length (filter isNotificationCreated (actions a)) = (if permission h = Granted then 1 else 0)"

text \<open>The alerts without their actions: what was decided, not what the host did.\<close>

definition outline :: "alert list \<Rightarrow> (threshold \<times> string) list" where
  "outline as = map (\<lambda>a. (kind a, target a)) as"

text \<open>The windows in the words of the specification, for comparison with the scheduler.\<close>

definition claimedPreWindow :: "int \<Rightarrow> int \<Rightarrow> bool" where
  "claimedPreWindow T now \<longleftrightarrow> T - 300000 < now \<and> now \<le> T"

definition claimedDueWindow :: "int \<Rightarrow> int \<Rightarrow> bool" where
  "claimedDueWindow T now \<longleftrightarrow> T < now \<and> now \<le> T + 60000"

subsection \<open>Sample data\<close>

definition sampleReminder :: "string \<Rightarrow> int \<Rightarrow> reminder" where
  "sampleReminder i t =
     \<lparr>id_r = i, title = ''Take pill'', date_time = Some t, notes_r = None, notified = False\<rparr>"

definition freshSession :: "reminder list \<Rightarrow> state" where
  "freshSession rs = \<lparr>reminders = rs, hasPlayedSound = {}, audioContext = False\<rparr>"

definition sampleHost :: "permission \<Rightarrow> host" where
  "sampleHost p =
     \<lparr>permission = p, contextCtor = True, contextSuspended = False, synthesisThrows = False,
      sample = Plays, notifyFails = (\<lambda>i. False)\<rparr>"

text \<open>The session once the PreAlert of reminder 1, due at 600 s, has fired.\<close>

definition preAlerted :: state where
  "preAlerted =
     \<lparr>reminders = [(sampleReminder ''1'' 600000)\<lparr>notified := True\<rparr>],
      hasPlayedSound = {''1-5min''}, audioContext = True\<rparr>"


text \<open>The session once both alerts of reminder 1 have fired.\<close>

definition bothFired :: state where
  "bothFired =
     \<lparr>reminders = [(sampleReminder ''1'' 600000)\<lparr>notified := True\<rparr>],
      hasPlayedSound = {''1-5min'', ''1-now''}, audioContext = True\<rparr>"

text \<open>
  A session with runs of the scheduler under several hosts, a refresh and the deletion of
  another reminder.
\<close>

definition busySession :: "event list" where
  "busySession =
     [Tick 590000 (sampleHost Granted),
      Load (Some [sampleReminder ''1'' 600000, sampleReminder ''2'' 900000]),
      Tick 600000 ((sampleHost Granted)\<lparr>notifyFails := (\<lambda>i. True)\<rparr>),
      Delete ''2'' True True (Some [sampleReminder ''1'' 600000]),
      Tick 630000 (sampleHost Default)]"

section \<open>Properties\<close>

subsection \<open>Keys, sound and the visit of one reminder\<close>


lemma key_inj: "key k i = key k' i' \<longleftrightarrow> k = k' \<and> i = i'"
proof -
  have "i @ ''-5min'' \<noteq> j @ ''-now''" for i j :: string
  proof
    assume "i @ ''-5min'' = j @ ''-now''"
    then have "(i @ ''-5mi'') @ ''n'' = (j @ ''-no'') @ ''w''" by simp
    then show False by (simp only: append1_eq_conv) simp
  qed
  then show ?thesis
    by (cases k; cases k') (auto dest: sym)
qed

lemma playNotificationSound_Normal: "fst (playNotificationSound ty h ctx) = Normal"
  by (simp add: playNotificationSound_def Let_def split: prod.splits completion.splits)

lemma sound_cases:
  obtains a c where "playNotificationSound ty h ctx = (Normal, a, c)"
  using playNotificationSound_Normal [of ty h ctx]
  by (cases "playNotificationSound ty h ctx") auto

lemma checkReminder_Normal:
  "checkReminder now h r played ctx = (c, as, r', played', ctx') \<Longrightarrow> c = Normal"
  using playNotificationSound_Normal [of "''reminder''" h ctx]
    playNotificationSound_Normal [of "''urgent''" h ctx]
  by (auto simp: checkReminder_def split: option.splits if_splits prod.splits completion.splits)

lemma dispatches_Nil [simp]: "dispatches k i [] = 0"
  by (simp add: dispatches_def)

lemma dispatches_append [simp]: "dispatches k i (as @ bs) = dispatches k i as + dispatches k i bs"
  by (simp add: dispatches_def)

lemma dispatches_single [simp]:
  "dispatches k i [a] = (if kind a = k \<and> target a = i then 1 else 0)"
  by (simp add: dispatches_def)

lemma checkReminder_count:
  assumes "checkReminder now h r played ctx = (c, as, r', played', ctx')"
  shows "of_bool (key k i \<in> played) + dispatches k i as = (of_bool (key k i \<in> played') :: nat)"
proof -
  have k5: "id_r r @ ''-5min'' = key PreAlert (id_r r)" and kn: "id_r r @ ''-now'' = key DueAlert (id_r r)"
    by simp_all
  obtain a1 c1 where s1: "playNotificationSound ''reminder'' h ctx = (Normal, a1, c1)"
    by (rule sound_cases)
  obtain a2 c2 where s2: "playNotificationSound ''urgent'' h ctx = (Normal, a2, c2)"
    by (rule sound_cases)
  show ?thesis
    using assms unfolding checkReminder_def k5 kn s1 s2
    by (auto simp: key_inj simp del: key.simps split: option.splits if_splits)
qed

lemma checkReminder_other:
  assumes "checkReminder now h r played ctx = (c, as, r', played', ctx')" "id_r r \<noteq> i"
  shows "dispatches k i as = 0"
proof -
  obtain a1 c1 where s1: "playNotificationSound ''reminder'' h ctx = (Normal, a1, c1)"
    by (rule sound_cases)
  obtain a2 c2 where s2: "playNotificationSound ''urgent'' h ctx = (Normal, a2, c2)"
    by (rule sound_cases)
  show ?thesis
    using assms unfolding checkReminder_def s1 s2
    by (auto split: option.splits if_splits)
qed

lemma checkReminder_fields:
  assumes "checkReminder now h r played ctx = (c, as, r', played', ctx')"
  shows "id_r r' = id_r r" "date_time r' = date_time r" "title r' = title r"
    "notified r \<Longrightarrow> notified r'"
proof -
  obtain a1 c1 where s1: "playNotificationSound ''reminder'' h ctx = (Normal, a1, c1)"
    by (rule sound_cases)
  obtain a2 c2 where s2: "playNotificationSound ''urgent'' h ctx = (Normal, a2, c2)"
    by (rule sound_cases)
  show "id_r r' = id_r r" "date_time r' = date_time r" "title r' = title r"
    "notified r \<Longrightarrow> notified r'"
    using assms unfolding checkReminder_def s1 s2
    by (auto split: option.splits if_splits)
qed

lemma checkReminder_own:
  assumes "checkReminder now h r played ctx = (c, as, r', played', ctx')" "date_time r = Some T"
  shows "dispatches PreAlert (id_r r) as =
           (if T - 300000 \<le> now \<and> now < T \<and> \<not> notified r \<and> key PreAlert (id_r r) \<notin> played
            then 1 else 0)"
    and "dispatches DueAlert (id_r r) as =
           (if T \<le> now \<and> now < T + 60000 \<and> key DueAlert (id_r r) \<notin> played then 1 else 0)"
proof -
  obtain a1 c1 where s1: "playNotificationSound ''reminder'' h ctx = (Normal, a1, c1)"
    by (rule sound_cases)
  obtain a2 c2 where s2: "playNotificationSound ''urgent'' h ctx = (Normal, a2, c2)"
    by (rule sound_cases)
  show "dispatches PreAlert (id_r r) as =
           (if T - 300000 \<le> now \<and> now < T \<and> \<not> notified r \<and> key PreAlert (id_r r) \<notin> played
            then 1 else 0)"
    using assms unfolding checkReminder_def s1 s2
    by (auto simp: timeDiff_def split: if_splits)
  show "dispatches DueAlert (id_r r) as =
           (if T \<le> now \<and> now < T + 60000 \<and> key DueAlert (id_r r) \<notin> played then 1 else 0)"
    using assms unfolding checkReminder_def s1 s2
    by (auto simp: timeDiff_def split: if_splits)
qed

subsection \<open>The visit of all reminders\<close>


lemma forEach_Cons_elim:
  assumes "forEach now h (r # rs) played ctx = (c, as, rs', played', ctx')"
  obtains as1 r1 p1 x1 as2 rs2 where
    "checkReminder now h r played ctx = (Normal, as1, r1, p1, x1)"
    "forEach now h rs p1 x1 = (c, as2, rs2, played', ctx')"
    "as = as1 @ as2" "rs' = r1 # rs2"
proof -
  obtain c1 as1 r1 p1 x1 where cb: "checkReminder now h r played ctx = (c1, as1, r1, p1, x1)"
    by (cases "checkReminder now h r played ctx") auto
  then have c1: "c1 = Normal" by (rule checkReminder_Normal)
  obtain c2 as2 rs2 p2 x2 where rc: "forEach now h rs p1 x1 = (c2, as2, rs2, p2, x2)"
    by (cases "forEach now h rs p1 x1") auto
  from assms cb c1 rc have "c = c2" "as = as1 @ as2" "rs' = r1 # rs2" "played' = p2" "ctx' = x2"
    by simp_all
  with cb c1 rc show ?thesis by (intro that) simp_all
qed

lemma forEach_Normal:
  "forEach now h rs played ctx = (c, as, rs', played', ctx') \<Longrightarrow> c = Normal"
proof (induction rs arbitrary: played ctx as rs')
  case Nil
  then show ?case by simp
next
  case (Cons r rs)
  from Cons.prems show ?case
    by (rule forEach_Cons_elim) (rule Cons.IH)
qed

lemma forEach_count:
  "forEach now h rs played ctx = (c, as, rs', played', ctx') \<Longrightarrow>
     of_bool (key k i \<in> played) + dispatches k i as = (of_bool (key k i \<in> played') :: nat)"
proof (induction rs arbitrary: played ctx as rs')
  case Nil
  then show ?case by simp
next
  case (Cons r rs)
  from Cons.prems obtain as1 r1 p1 x1 as2 rs2 where
    cb: "checkReminder now h r played ctx = (Normal, as1, r1, p1, x1)" and
    rc: "forEach now h rs p1 x1 = (c, as2, rs2, played', ctx')" and
    as: "as = as1 @ as2"
    by (rule forEach_Cons_elim)
  from checkReminder_count [OF cb, of k i] Cons.IH [OF rc] as show ?case
    by simp
qed

lemma forEach_other:
  "forEach now h rs played ctx = (c, as, rs', played', ctx') \<Longrightarrow> i \<notin> id_r ` set rs \<Longrightarrow>
     dispatches k i as = 0"
proof (induction rs arbitrary: played ctx as rs')
  case Nil
  then show ?case by simp
next
  case (Cons r rs)
  from Cons.prems(1) obtain as1 r1 p1 x1 as2 rs2 where
    cb: "checkReminder now h r played ctx = (Normal, as1, r1, p1, x1)" and
    rc: "forEach now h rs p1 x1 = (c, as2, rs2, played', ctx')" and
    as: "as = as1 @ as2"
    by (rule forEach_Cons_elim)
  from Cons.prems(2) have "id_r r \<noteq> i" "i \<notin> id_r ` set rs" by auto
  with checkReminder_other [OF cb, of i k] Cons.IH [OF rc] as show ?case
    by simp
qed

lemma forEach_ids:
  "forEach now h rs played ctx = (c, as, rs', played', ctx') \<Longrightarrow> map id_r rs' = map id_r rs"
proof (induction rs arbitrary: played ctx as rs')
  case Nil
  then show ?case by simp
next
  case (Cons r rs)
  from Cons.prems(1) obtain as1 r1 p1 x1 as2 rs2 where
    cb: "checkReminder now h r played ctx = (Normal, as1, r1, p1, x1)" and
    rc: "forEach now h rs p1 x1 = (c, as2, rs2, played', ctx')" and
    rs': "rs' = r1 # rs2"
    by (rule forEach_Cons_elim)
  from checkReminder_fields(1) [OF cb] Cons.IH [OF rc] rs' show ?case
    by simp
qed




lemma forEach_own:
  assumes "forEach now h rs played ctx = (c, as, rs', played', ctx')"
    "distinct (map id_r rs)" "r \<in> set rs" "date_time r = Some T"
  shows "dispatches PreAlert (id_r r) as =
           (if T - 300000 \<le> now \<and> now < T \<and> \<not> notified r \<and> key PreAlert (id_r r) \<notin> played
            then 1 else 0)"
    and "dispatches DueAlert (id_r r) as =
           (if T \<le> now \<and> now < T + 60000 \<and> key DueAlert (id_r r) \<notin> played then 1 else 0)"
  using assms
proof (induction rs arbitrary: played ctx as rs')
  case Nil
  {
    case 1
    then show ?case by simp
  next
    case 2
    then show ?case by simp
  }
next
  case (Cons x rs)
  have both: "dispatches PreAlert (id_r r) as =
           (if T - 300000 \<le> now \<and> now < T \<and> \<not> notified r \<and> key PreAlert (id_r r) \<notin> played
            then 1 else 0) \<and>
        dispatches DueAlert (id_r r) as =
           (if T \<le> now \<and> now < T + 60000 \<and> key DueAlert (id_r r) \<notin> played then 1 else 0)"
    if prems: "forEach now h (x # rs) played ctx = (c, as, rs', played', ctx')"
      "distinct (map id_r (x # rs))" "r \<in> set (x # rs)" "date_time r = Some T"
    for played ctx as rs'
  proof -
    from prems(1) obtain as1 r1 p1 x1 as2 rs2 where
      cb: "checkReminder now h x played ctx = (Normal, as1, r1, p1, x1)" and
      rc: "forEach now h rs p1 x1 = (c, as2, rs2, played', ctx')" and
      as: "as = as1 @ as2"
      by (rule forEach_Cons_elim)
    show ?thesis
    proof (cases "x = r")
      case True
      with prems(2) have "id_r r \<notin> id_r ` set rs" by simp
      then have "dispatches k (id_r r) as2 = 0" for k
        by (rule forEach_other [OF rc])
      with checkReminder_own [OF cb [unfolded True] prems(4)] as show ?thesis
        by simp
    next
      case False
      with prems(2,3) have r: "r \<in> set rs" and ne: "id_r x \<noteq> id_r r" and d: "distinct (map id_r rs)"
        by auto
      have zero: "dispatches k (id_r r) as1 = 0" for k
        by (rule checkReminder_other [OF cb ne])
      have same: "key k (id_r r) \<in> p1 \<longleftrightarrow> key k (id_r r) \<in> played" for k
        using checkReminder_count [OF cb, of k "id_r r"] zero [of k]
        by (cases "key k (id_r r) \<in> p1"; cases "key k (id_r r) \<in> played") simp_all
      from Cons.IH(1) [OF rc d r prems(4)] Cons.IH(2) [OF rc d r prems(4)]
        zero [of PreAlert] zero [of DueAlert] same [of PreAlert] same [of DueAlert] as
      show ?thesis by simp
    qed
  qed
  {
    case 1
    then show ?case using both by blast
  next
    case 2
    then show ?case using both by blast
  }
qed

subsection \<open>One run of the scheduler, and sessions\<close>


lemma tick_forEach:
  obtains as rs' p' x' where
    "forEach now h (reminders s) (hasPlayedSound s) (audioContext s) = (Normal, as, rs', p', x')"
    "tickAlerts now h s = as"
    "tickState now h s = s\<lparr>reminders := rs', hasPlayedSound := p', audioContext := x'\<rparr>"
proof -
  obtain c as rs' p' x' where
    fe: "forEach now h (reminders s) (hasPlayedSound s) (audioContext s) = (c, as, rs', p', x')"
    by (cases "forEach now h (reminders s) (hasPlayedSound s) (audioContext s)") auto
  then have "c = Normal" by (rule forEach_Normal)
  with fe show ?thesis by (intro that [of as rs' p' x']) (simp_all add: checkReminders_def)
qed

lemma tick_count:
  "of_bool (key k i \<in> hasPlayedSound s) + dispatches k i (tickAlerts now h s) =
     (of_bool (key k i \<in> hasPlayedSound (tickState now h s)) :: nat)"
proof -
  obtain as rs' p' x' where
    fe: "forEach now h (reminders s) (hasPlayedSound s) (audioContext s) = (Normal, as, rs', p', x')"
    and "tickAlerts now h s = as"
    and "tickState now h s = s\<lparr>reminders := rs', hasPlayedSound := p', audioContext := x'\<rparr>"
    by (rule tick_forEach)
  with forEach_count [OF fe, of k i] show ?thesis by simp
qed

lemma tick_ids: "map id_r (reminders (tickState now h s)) = map id_r (reminders s)"
proof -
  obtain as rs' p' x' where
    fe: "forEach now h (reminders s) (hasPlayedSound s) (audioContext s) = (Normal, as, rs', p', x')"
    and "tickState now h s = s\<lparr>reminders := rs', hasPlayedSound := p', audioContext := x'\<rparr>"
    by (rule tick_forEach)
  with forEach_ids [OF fe] show ?thesis by simp
qed


lemma tick_other:
  assumes "i \<notin> id_r ` set (reminders s)"
  shows "dispatches k i (tickAlerts now h s) = 0"
proof -
  obtain as rs' p' x' where
    fe: "forEach now h (reminders s) (hasPlayedSound s) (audioContext s) = (Normal, as, rs', p', x')"
    and a: "tickAlerts now h s = as"
    by (rule tick_forEach)
  from forEach_other [OF fe assms] a show ?thesis by simp
qed

lemma tick_own:
  assumes "r \<in> set (reminders s)" "distinct (map id_r (reminders s))" "date_time r = Some T"
  shows "dispatches PreAlert (id_r r) (tickAlerts now h s) =
           (if T - 300000 \<le> now \<and> now < T \<and> \<not> notified r \<and>
               key PreAlert (id_r r) \<notin> hasPlayedSound s
            then 1 else 0)"
    and "dispatches DueAlert (id_r r) (tickAlerts now h s) =
           (if T \<le> now \<and> now < T + 60000 \<and> key DueAlert (id_r r) \<notin> hasPlayedSound s
            then 1 else 0)"
proof -
  obtain as rs' p' x' where
    fe: "forEach now h (reminders s) (hasPlayedSound s) (audioContext s) = (Normal, as, rs', p', x')"
    and a: "tickAlerts now h s = as"
    by (rule tick_forEach)
  from forEach_own(1) [OF fe assms(2,1,3)] a
  show "dispatches PreAlert (id_r r) (tickAlerts now h s) =
           (if T - 300000 \<le> now \<and> now < T \<and> \<not> notified r \<and>
               key PreAlert (id_r r) \<notin> hasPlayedSound s
            then 1 else 0)" by simp
  from forEach_own(2) [OF fe assms(2,1,3)] a
  show "dispatches DueAlert (id_r r) (tickAlerts now h s) =
           (if T \<le> now \<and> now < T + 60000 \<and> key DueAlert (id_r r) \<notin> hasPlayedSound s
            then 1 else 0)" by simp
qed

lemma run_Cons_fst [simp]: "fst (run (e # es) s) = fst (step e s) @ fst (run es (snd (step e s)))"
  by (cases "step e s"; cases "run es (snd (step e s))") simp

lemma run_Cons_snd [simp]: "snd (run (e # es) s) = snd (run es (snd (step e s)))"
  by (cases "step e s"; cases "run es (snd (step e s))") simp

declare run.simps(2) [simp del]

lemma step_count:
  assumes "\<not> clears i e"
  shows "of_bool (key k i \<in> hasPlayedSound s) + dispatches k i (fst (step e s)) =
     (of_bool (key k i \<in> hasPlayedSound (snd (step e s))) :: nat)"
proof (cases e)
  case (Tick now h)
  with tick_count [of k i s now h] show ?thesis by simp
next
  case (Load response)
  then show ?thesis by (simp add: loadReminders_def split: option.splits)
next
  case (Delete j confirmed ok response)
  have k5: "j @ ''-5min'' = key PreAlert j" and kn: "j @ ''-now'' = key DueAlert j"
    by simp_all
  from Delete assms show ?thesis
    unfolding Delete step.simps deleteReminder_def loadReminders_def k5 kn
    by (auto simp: key_inj simp del: key.simps split: option.splits)
qed

lemma run_count:
  "\<not> list_ex (clears i) es \<Longrightarrow>
     of_bool (key k i \<in> hasPlayedSound s) + dispatches k i (fst (run es s)) =
     (of_bool (key k i \<in> hasPlayedSound (snd (run es s))) :: nat)"
proof (induction es arbitrary: s)
  case Nil
  then show ?case by simp
next
  case (Cons e es)
  then have e: "\<not> clears i e" and es: "\<not> list_ex (clears i) es" by simp_all
  from step_count [OF e, of k s] Cons.IH [OF es, of "snd (step e s)"] show ?case
    by simp
qed


lemma step_absent:
  assumes "i \<notin> id_r ` set (reminders s)" "\<not> returns i e"
  shows "dispatches k i (fst (step e s)) = 0" "i \<notin> id_r ` set (reminders (snd (step e s)))"
proof -
  have "dispatches k i (fst (step e s)) = 0 \<and> i \<notin> id_r ` set (reminders (snd (step e s)))"
  proof (cases e)
    case (Tick now h)
    from tick_ids [of now h s] have "id_r ` set (reminders (tickState now h s)) = id_r ` set (reminders s)"
      by (metis set_map)
    with tick_other [OF assms(1), of k now h] assms(1) Tick show ?thesis by simp
  next
    case (Load response)
    with assms show ?thesis by (cases response) (simp_all add: loadReminders_def)
  next
    case (Delete j confirmed ok response)
    with assms show ?thesis
      by (cases response) (auto simp: deleteReminder_def loadReminders_def)
  qed
  then show "dispatches k i (fst (step e s)) = 0" "i \<notin> id_r ` set (reminders (snd (step e s)))"
    by simp_all
qed

lemma run_absent:
  "i \<notin> id_r ` set (reminders s) \<Longrightarrow> \<not> list_ex (returns i) es \<Longrightarrow>
     dispatches k i (fst (run es s)) = 0"
proof (induction es arbitrary: s)
  case Nil
  then show ?case by simp
next
  case (Cons e es)
  then have e: "\<not> returns i e" and es: "\<not> list_ex (returns i) es" by simp_all
  from step_absent(1) [OF Cons.prems(1) e, of k]
    Cons.IH [OF step_absent(2) [OF Cons.prems(1) e] es]
  show ?case by simp
qed

subsection \<open>Evaluation on sample data, sessions of runs only\<close>


lemmas evaluate =
  checkReminders_def checkReminder_def timeDiff_def playNotificationSound_def
  initAudioContext_def synthesise_def fallbackSample_def sendNotification_def
  createNotification_def notifyServer_def sampleReminder_def freshSession_def sampleHost_def
  dispatches_def performed_def ticks_def Let_def

lemma ticks_no_clears: "\<not> list_ex (clears i) (ticks ts)"
  by (induction ts) (auto simp: ticks_def)

lemma run_ticks_once: "dispatches k i (fst (run (ticks ts) s)) \<le> 1"
  using run_count [OF ticks_no_clears, where k = k and s = s and i = i and ts1 = ts]
  by (cases "key k i \<in> hasPlayedSound s"; cases "key k i \<in> hasPlayedSound (snd (run (ticks ts) s))")
    simp_all


subsection \<open>What an alert consists of\<close>

lemma sound_audio: "list_all isAudio (fst (snd (playNotificationSound ty h ctx)))"
  by (cases "sample h")
    (simp_all add: playNotificationSound_def initAudioContext_def synthesise_def
      fallbackSample_def Let_def)

lemma sound_heard: "list_ex isSound (fst (snd (playNotificationSound ty h ctx)))"
  by (cases "sample h")
    (simp_all add: playNotificationSound_def initAudioContext_def synthesise_def
      fallbackSample_def Let_def)

lemma audio_filters:
  assumes "list_all isAudio a"
  shows "filter isPut a = []" "filter isPermissionRequest a = []"
    "filter isNotificationCreated a = []"
proof -
  have "isAudio x \<Longrightarrow> \<not> isPut x \<and> \<not> isPermissionRequest x \<and> \<not> isNotificationCreated x" for x
    by (cases x) simp_all
  with assms show "filter isPut a = []" "filter isPermissionRequest a = []"
    "filter isNotificationCreated a = []"
    by (auto simp: list_all_iff filter_empty_conv)
qed

lemma sendNotification_filters:
  "filter isPut (sendNotification h ttl body) = []"
  "length (filter isPermissionRequest (sendNotification h ttl body)) =
     (if permission h = Default then 1 else 0)"
  "length (filter isNotificationCreated (sendNotification h ttl body)) =
     (if permission h = Granted then 1 else 0)"
  by (cases "permission h"; simp add: sendNotification_def createNotification_def)+

lemma notifyServer_filters:
  "filter isPut (notifyServer h i) = [PutNotify i]"
  "filter isPermissionRequest (notifyServer h i) = []"
  "filter isNotificationCreated (notifyServer h i) = []"
  by (simp_all add: notifyServer_def)

lemma checkReminder_complete:
  assumes "checkReminder now h r played ctx = (c, as, r', played', ctx')"
  shows "list_all (complete h) as"
proof -
  obtain a1 c1 where s1: "playNotificationSound ''reminder'' h ctx = (Normal, a1, c1)"
    by (rule sound_cases)
  obtain a2 c2 where s2: "playNotificationSound ''urgent'' h ctx = (Normal, a2, c2)"
    by (rule sound_cases)
  from sound_audio [of "''reminder''" h ctx] sound_heard [of "''reminder''" h ctx] s1
  have a1: "list_all isAudio a1" "list_ex isSound a1" by simp_all
  from sound_audio [of "''urgent''" h ctx] sound_heard [of "''urgent''" h ctx] s2
  have a2: "list_all isAudio a2" "list_ex isSound a2" by simp_all
  note f = audio_filters [OF a1(1)] audio_filters [OF a2(1)] sendNotification_filters
    notifyServer_filters
  from assms a1(2) a2(2) show ?thesis
    unfolding checkReminder_def s1 s2
    by (auto simp: complete_def f split: option.splits if_splits)
qed

lemma forEach_complete:
  "forEach now h rs played ctx = (c, as, rs', played', ctx') \<Longrightarrow> list_all (complete h) as"
proof (induction rs arbitrary: played ctx as rs')
  case Nil
  then show ?case by simp
next
  case (Cons r rs)
  from Cons.prems obtain as1 r1 p1 x1 as2 rs2 where
    cb: "checkReminder now h r played ctx = (Normal, as1, r1, p1, x1)" and
    rc: "forEach now h rs p1 x1 = (c, as2, rs2, played', ctx')" and
    as: "as = as1 @ as2"
    by (rule forEach_Cons_elim)
  from checkReminder_complete [OF cb] Cons.IH [OF rc] as show ?case
    by simp
qed

lemma tick_complete: "list_all (complete h) (tickAlerts now h s)"
proof -
  obtain as rs' p' x' where
    fe: "forEach now h (reminders s) (hasPlayedSound s) (audioContext s) = (Normal, as, rs', p', x')"
    and a: "tickAlerts now h s = as"
    by (rule tick_forEach)
  from forEach_complete [OF fe] a show ?thesis by simp
qed

lemma performed_Nil [simp]: "performed [] = []"
  by (simp add: performed_def)

lemma performed_Cons [simp]: "performed (a # as) = actions a @ performed as"
  by (simp add: performed_def)

lemma performed_append [simp]: "performed (as @ bs) = performed as @ performed bs"
  by (simp add: performed_def)

lemma complete_requests:
  "list_all (complete h) as \<Longrightarrow>
     length (filter isPermissionRequest (performed as)) =
       (if permission h = Default then length as else 0)"
  by (induction as) (simp_all add: complete_def)

lemma complete_created:
  "list_all (complete h) as \<Longrightarrow>
     length (filter isNotificationCreated (performed as)) =
       (if permission h = Granted then length as else 0)"
  by (induction as) (simp_all add: complete_def)

lemma complete_heard:
  "list_all (complete h) as \<Longrightarrow> list_all (\<lambda>a. list_ex isSound (actions a)) as"
  by (induction as) (simp_all add: complete_def)

lemma complete_put:
  "list_all (complete h) as \<Longrightarrow>
     list_all (\<lambda>a. filter isPut (actions a) = [PutNotify (target a)]) as"
  by (induction as) (simp_all add: complete_def)

lemma put_dispatched:
  assumes "list_all (\<lambda>a. filter isPut (actions a) = [PutNotify (target a)]) as"
    "PutNotify i \<in> set (performed as)"
  shows "0 < dispatches PreAlert i as + dispatches DueAlert i as"
  using assms
proof (induction as)
  case Nil
  then show ?case by simp
next
  case (Cons a as)
  show ?case
  proof (cases "PutNotify i \<in> set (actions a)")
    case True
    then have "PutNotify i \<in> set (filter isPut (actions a))" by simp
    with Cons.prems(1) have "target a = i" by simp
    then show ?thesis by (cases "kind a") (simp_all add: dispatches_def)
  next
    case False
    with Cons.prems have "list_all (\<lambda>a. filter isPut (actions a) = [PutNotify (target a)]) as"
      "PutNotify i \<in> set (performed as)" by simp_all
    from Cons.IH [OF this] show ?thesis by (simp add: dispatches_def)
  qed
qed

lemma step_put:
  "list_all (\<lambda>a. filter isPut (actions a) = [PutNotify (target a)]) (fst (step e s))"
proof (cases e)
  case (Tick now h)
  with complete_put [OF tick_complete [of h now s]] show ?thesis by simp
qed simp_all

lemma run_put:
  "list_all (\<lambda>a. filter isPut (actions a) = [PutNotify (target a)]) (fst (run es s))"
proof (induction es arbitrary: s)
  case Nil
  then show ?case by simp
next
  case (Cons e es)
  from step_put [of e s] Cons.IH [of "snd (step e s)"] show ?case by simp
qed

subsection \<open>The outcome of the acknowledgement has no influence\<close>

lemma sound_notifyFails [simp]:
  "playNotificationSound ty (h\<lparr>notifyFails := f\<rparr>) ctx = playNotificationSound ty h ctx"
  by (simp add: playNotificationSound_def initAudioContext_def synthesise_def
      fallbackSample_def Let_def)

lemma checkReminder_notifyFails:
  assumes "checkReminder now h r played ctx = (c, as, r', played', ctx')"
  obtains bs where
    "checkReminder now (h\<lparr>notifyFails := f\<rparr>) r played ctx = (c, bs, r', played', ctx')"
    "outline bs = outline as"
proof -
  obtain a1 c1 where s1: "playNotificationSound ''reminder'' h ctx = (Normal, a1, c1)"
    by (rule sound_cases)
  obtain a2 c2 where s2: "playNotificationSound ''urgent'' h ctx = (Normal, a2, c2)"
    by (rule sound_cases)
  obtain d bs q p x where
    b: "checkReminder now (h\<lparr>notifyFails := f\<rparr>) r played ctx = (d, bs, q, p, x)"
    by (cases "checkReminder now (h\<lparr>notifyFails := f\<rparr>) r played ctx") auto
  from assms b have "d = c \<and> q = r' \<and> p = played' \<and> x = ctx' \<and> outline bs = outline as"
    unfolding checkReminder_def sound_notifyFails s1 s2
    by (auto simp: outline_def split: option.splits if_splits)
  with b show ?thesis by (intro that [of bs]) simp_all
qed

lemma forEach_notifyFails:
  "forEach now h rs played ctx = (c, as, rs', played', ctx') \<Longrightarrow>
     \<exists>bs. forEach now (h\<lparr>notifyFails := f\<rparr>) rs played ctx = (c, bs, rs', played', ctx') \<and>
          outline bs = outline as"
proof (induction rs arbitrary: played ctx as rs')
  case Nil
  then show ?case by auto
next
  case (Cons r rs)
  from Cons.prems obtain as1 r1 p1 x1 as2 rs2 where
    cb: "checkReminder now h r played ctx = (Normal, as1, r1, p1, x1)" and
    rc: "forEach now h rs p1 x1 = (c, as2, rs2, played', ctx')" and
    as: "as = as1 @ as2" and rs': "rs' = r1 # rs2"
    by (rule forEach_Cons_elim)
  from cb obtain bs1 where
    cb': "checkReminder now (h\<lparr>notifyFails := f\<rparr>) r played ctx = (Normal, bs1, r1, p1, x1)"
    and o1: "outline bs1 = outline as1"
    by (rule checkReminder_notifyFails)
  from Cons.IH [OF rc] obtain bs2 where
    rc': "forEach now (h\<lparr>notifyFails := f\<rparr>) rs p1 x1 = (c, bs2, rs2, played', ctx')"
    and o2: "outline bs2 = outline as2"
    by blast
  from cb' rc' o1 o2 as rs' show ?case
    by (simp add: outline_def)
qed

lemma tick_notifyFails:
  "tickState now (h\<lparr>notifyFails := f\<rparr>) s = tickState now h s"
  "outline (tickAlerts now (h\<lparr>notifyFails := f\<rparr>) s) = outline (tickAlerts now h s)"
proof -
  obtain as rs' p' x' where
    fe: "forEach now h (reminders s) (hasPlayedSound s) (audioContext s) = (Normal, as, rs', p', x')"
    by (rule tick_forEach)
  from forEach_notifyFails [OF fe, of f] obtain bs where
    "forEach now (h\<lparr>notifyFails := f\<rparr>) (reminders s) (hasPlayedSound s) (audioContext s) =
       (Normal, bs, rs', p', x')" "outline bs = outline as"
    by blast
  with fe show "tickState now (h\<lparr>notifyFails := f\<rparr>) s = tickState now h s"
    "outline (tickAlerts now (h\<lparr>notifyFails := f\<rparr>) s) = outline (tickAlerts now h s)"
    by (simp_all add: checkReminders_def)
qed

subsection \<open>Sessions of runs under a denied permission\<close>

lemma ticks_Cons: "ticks ((now, h) # ts) = Tick now h # ticks ts"
  by (simp add: ticks_def)

lemma ticks_Nil: "ticks [] = []"
  by (simp add: ticks_def)

lemma run_ticks_heard: "list_all (\<lambda>a. list_ex isSound (actions a)) (fst (run (ticks ts) s))"
proof (induction ts arbitrary: s)
  case Nil
  then show ?case by (simp add: ticks_Nil)
next
  case (Cons t ts)
  obtain now h where t: "t = (now, h)" by (cases t)
  from complete_heard [OF tick_complete [of h now s]] Cons.IH [of "tickState now h s"] t
  show ?case by (simp add: ticks_Cons)
qed

lemma run_ticks_denied:
  "list_all (\<lambda>(now, h). permission h = Denied) ts \<Longrightarrow>
     filter isPermissionRequest (performed (fst (run (ticks ts) s))) = [] \<and>
     filter isNotificationCreated (performed (fst (run (ticks ts) s))) = []"
proof (induction ts arbitrary: s)
  case Nil
  then show ?case by (simp add: ticks_Nil)
next
  case (Cons t ts)
  obtain now h where t: "t = (now, h)" by (cases t)
  with Cons.prems have d: "permission h = Denied"
    and ds: "list_all (\<lambda>(now, h). permission h = Denied) ts" by simp_all
  from complete_requests [OF tick_complete [of h now s]]
    complete_created [OF tick_complete [of h now s]] d Cons.IH [OF ds, of "tickState now h s"] t
  show ?case by (simp add: ticks_Cons)
qed

lemma run_ticks_requests:
  "length (filter isPermissionRequest (performed (fst (run (ticks ts) s)))) =
     alertsUnderDefault ts s"
proof (induction ts arbitrary: s)
  case Nil
  then show ?case by (simp add: ticks_Nil)
next
  case (Cons t ts)
  obtain now h where t: "t = (now, h)" by (cases t)
  from complete_requests [OF tick_complete [of h now s]] Cons.IH [of "tickState now h s"] t
  show ?case by (simp add: ticks_Cons)
qed

section \<open>The claims\<close>

subsection \<open>Sound never fails the caller\<close>

text \<open>
  C9. Whatever the alert type, the host and the state of the audio context,
  \<^verbatim>\<open>playNotificationSound\<close> completes normally: nothing thrown inside reaches its caller, also
  when both the synthesis and the sample fail. The sample is attempted exactly once when the
  synthesis throws, and not at all when it does not.
\<close>

theorem playNotificationSound_contained:
  "fst (playNotificationSound ty h ctx) = Normal \<and>
   length (filter (\<lambda>a. a = SampleAttempt) (fst (snd (playNotificationSound ty h ctx)))) =
     (if fst (synthesise ty h (snd (snd (playNotificationSound ty h ctx)))) = Threw then 1 else 0)"
  by (cases "sample h")
    (simp_all add: playNotificationSound_def initAudioContext_def synthesise_def
      fallbackSample_def Let_def)

subsection \<open>The window of the alert before the due time\<close>

text \<open>
  C1, as amended. Take a cached reminder due at \<open>T\<close>, with unique id, whose \<open>notified\<close> flag
  is false and whose key \<^verbatim>\<open>{id}-5min\<close> is not in the tracker. A run of the scheduler at time
  \<open>now\<close> dispatches its PreAlert if and only if \<open>T - 5min \<le> now < T\<close>: the window is closed at
  its start and open at the due time. Over any number of runs, at any times, the PreAlert
  is dispatched at most once. When dispatched, the alert plays the sound \<^verbatim>\<open>'reminder'\<close>
  (the chime), sends the notification "Reminder in 5 minutes", shows the toast and tells
  the server.
\<close>

theorem preAlert_window:
  assumes "r \<in> set (reminders s)" "distinct (map id_r (reminders s))" "date_time r = Some T"
    "\<not> notified r" "key PreAlert (id_r r) \<notin> hasPlayedSound s"
  shows "dispatches PreAlert (id_r r) (tickAlerts now h s) =
           (if T - 300000 \<le> now \<and> now < T then 1 else 0) \<and>
         dispatches PreAlert (id_r r) (fst (run (ticks ts) s)) \<le> 1 \<and>
         (T - 300000 \<le> now \<and> now < T \<longrightarrow>
          fst (snd (checkReminder now h r (hasPlayedSound s) ctx)) =
            [\<lparr>kind = PreAlert, target = id_r r,
              actions =
                fst (snd (playNotificationSound ''reminder'' h ctx)) @
                sendNotification h (title r) (''Reminder in 5 minutes: '' @ title r) @
                [ShowToast ([CHR 0xE2, CHR 0x8F, CHR 0xB0] @ '' Reminder: \"'' @ title r @
                            ''\" in 5 minutes!'') ''info''] @
                notifyServer h (id_r r)\<rparr>])"
proof (intro conjI impI)
  from tick_own(1) [OF assms(1,2,3), of now h] assms(4,5)
  show "dispatches PreAlert (id_r r) (tickAlerts now h s) =
          (if T - 300000 \<le> now \<and> now < T then 1 else 0)"
    by simp
  show "dispatches PreAlert (id_r r) (fst (run (ticks ts) s)) \<le> 1"
    by (rule run_ticks_once)
next
  assume w: "T - 300000 \<le> now \<and> now < T"
  obtain a c where "playNotificationSound ''reminder'' h ctx = (Normal, a, c)"
    by (rule sound_cases)
  with w assms(3,4,5)
  show "fst (snd (checkReminder now h r (hasPlayedSound s) ctx)) =
            [\<lparr>kind = PreAlert, target = id_r r,
              actions =
                fst (snd (playNotificationSound ''reminder'' h ctx)) @
                sendNotification h (title r) (''Reminder in 5 minutes: '' @ title r) @
                [ShowToast ([CHR 0xE2, CHR 0x8F, CHR 0xB0] @ '' Reminder: \"'' @ title r @
                            ''\" in 5 minutes!'') ''info''] @
                notifyServer h (id_r r)\<rparr>]"
    by (simp add: checkReminder_def timeDiff_def)
qed

text \<open>The theorem at a reminder due at 600 s, for runs at 400 s and 460 s.\<close>

theorem preAlert_window_witness:
  "sampleReminder ''1'' 600000 \<in> set (reminders (freshSession [sampleReminder ''1'' 600000])) \<and>
   distinct (map id_r (reminders (freshSession [sampleReminder ''1'' 600000]))) \<and>
   date_time (sampleReminder ''1'' 600000) = Some 600000 \<and>
   \<not> notified (sampleReminder ''1'' 600000) \<and>
   key PreAlert ''1'' \<notin> hasPlayedSound (freshSession [sampleReminder ''1'' 600000]) \<and>
   dispatches PreAlert ''1''
     (tickAlerts 400000 (sampleHost Granted) (freshSession [sampleReminder ''1'' 600000])) = 1 \<and>
   dispatches PreAlert ''1''
     (fst (run (ticks [(400000, sampleHost Granted), (460000, sampleHost Granted)])
        (freshSession [sampleReminder ''1'' 600000]))) \<le> 1 \<and>
   Chime \<in> set (performed (fst (snd (checkReminder 400000 (sampleHost Granted)
     (sampleReminder ''1'' 600000) {} False))))"
proof -
  have h1: "sampleReminder ''1'' 600000 \<in> set (reminders (freshSession [sampleReminder ''1'' 600000]))"
    by (simp add: freshSession_def)
  have h2: "distinct (map id_r (reminders (freshSession [sampleReminder ''1'' 600000])))"
    by (simp add: freshSession_def)
  have h3: "date_time (sampleReminder ''1'' 600000) = Some 600000"
    by (simp add: sampleReminder_def)
  have h4: "\<not> notified (sampleReminder ''1'' 600000)"
    by (simp add: sampleReminder_def)
  have h5: "key PreAlert (id_r (sampleReminder ''1'' 600000)) \<notin>
      hasPlayedSound (freshSession [sampleReminder ''1'' 600000])"
    by (simp add: freshSession_def)
  have i: "id_r (sampleReminder ''1'' 600000) = ''1''"
    by (simp add: sampleReminder_def)
  have p: "hasPlayedSound (freshSession [sampleReminder ''1'' 600000]) = {}"
    by (simp add: freshSession_def)
  from preAlert_window [OF h1 h2 h3 h4 h5, of 400000 "sampleHost Granted"
      "[(400000, sampleHost Granted), (460000, sampleHost Granted)]" False]
  have "dispatches PreAlert ''1''
     (tickAlerts 400000 (sampleHost Granted) (freshSession [sampleReminder ''1'' 600000])) = 1"
    and "dispatches PreAlert ''1''
     (fst (run (ticks [(400000, sampleHost Granted), (460000, sampleHost Granted)])
        (freshSession [sampleReminder ''1'' 600000]))) \<le> 1"
    and "Chime \<in> set (performed (fst (snd (checkReminder 400000 (sampleHost Granted)
     (sampleReminder ''1'' 600000) {} False))))"
    unfolding i p
    by (simp_all add: performed_def playNotificationSound_def initAudioContext_def
        synthesise_def sampleHost_def Let_def)
  with h1 h2 h3 h4 h5 show ?thesis unfolding i by simp
qed

text \<open>
  The window as the specification words it, \<open>T - 5min < now \<le> T\<close>, differs at both ends: a
  run at the due time is inside it and dispatches no PreAlert, a run five minutes before
  is outside it and dispatches one.
\<close>

theorem preAlert_window_counterexample:
  "claimedPreWindow 600000 600000 \<and>
   dispatches PreAlert ''1''
     (tickAlerts 600000 (sampleHost Granted) (freshSession [sampleReminder ''1'' 600000])) = 0 \<and>
   \<not> claimedPreWindow 600000 300000 \<and>
   dispatches PreAlert ''1''
     (tickAlerts 300000 (sampleHost Granted) (freshSession [sampleReminder ''1'' 600000])) = 1"
  by (simp add: claimedPreWindow_def evaluate)

subsection \<open>The window of the alert at the due time\<close>

text \<open>
  C2, as amended. Take a cached reminder due at \<open>T\<close>, with unique id, whose key
  \<^verbatim>\<open>{id}-now\<close> is not in the tracker. A run of the scheduler at time \<open>now\<close> dispatches its
  DueAlert if and only if \<open>T \<le> now < T + 1min\<close>: the window is closed at the due time and
  open one minute later. Nothing is asked of the \<open>notified\<close> flag or of the PreAlert key, so
  it does not matter whether the PreAlert fired. Over any number of runs the DueAlert is
  dispatched at most once. When dispatched, the alert plays the sound \<^verbatim>\<open>'urgent'\<close>, sends
  the notification "It's time", shows the toast and tells the server.
\<close>

theorem dueAlert_window:
  assumes "r \<in> set (reminders s)" "distinct (map id_r (reminders s))" "date_time r = Some T"
    "key DueAlert (id_r r) \<notin> hasPlayedSound s"
  shows "dispatches DueAlert (id_r r) (tickAlerts now h s) =
           (if T \<le> now \<and> now < T + 60000 then 1 else 0) \<and>
         dispatches DueAlert (id_r r) (fst (run (ticks ts) s)) \<le> 1 \<and>
         (T \<le> now \<and> now < T + 60000 \<longrightarrow>
          fst (snd (checkReminder now h r (hasPlayedSound s) ctx)) =
            [\<lparr>kind = DueAlert, target = id_r r,
              actions =
                fst (snd (playNotificationSound ''urgent'' h ctx)) @
                sendNotification h (title r) (''It's time: '' @ title r @ ''!'') @
                [ShowToast ([CHR 0xF0, CHR 0x9F, CHR 0x94, CHR 0x94] @ '' Time for: \"'' @
                            title r @ ''\"!'') ''info''] @
                notifyServer h (id_r r)\<rparr>])"
proof (intro conjI impI)
  from tick_own(2) [OF assms(1,2,3), of now h] assms(4)
  show "dispatches DueAlert (id_r r) (tickAlerts now h s) =
          (if T \<le> now \<and> now < T + 60000 then 1 else 0)"
    by simp
  show "dispatches DueAlert (id_r r) (fst (run (ticks ts) s)) \<le> 1"
    by (rule run_ticks_once)
next
  assume w: "T \<le> now \<and> now < T + 60000"
  obtain a c where "playNotificationSound ''urgent'' h ctx = (Normal, a, c)"
    by (rule sound_cases)
  with w assms(3,4)
  show "fst (snd (checkReminder now h r (hasPlayedSound s) ctx)) =
            [\<lparr>kind = DueAlert, target = id_r r,
              actions =
                fst (snd (playNotificationSound ''urgent'' h ctx)) @
                sendNotification h (title r) (''It's time: '' @ title r @ ''!'') @
                [ShowToast ([CHR 0xF0, CHR 0x9F, CHR 0x94, CHR 0x94] @ '' Time for: \"'' @
                            title r @ ''\"!'') ''info''] @
                notifyServer h (id_r r)\<rparr>]"
    by (simp add: checkReminder_def timeDiff_def)
qed

text \<open>The theorem at the due time of a reminder whose PreAlert has fired.\<close>

theorem dueAlert_window_witness:
  "(sampleReminder ''1'' 600000)\<lparr>notified := True\<rparr> \<in> set (reminders preAlerted) \<and>
   distinct (map id_r (reminders preAlerted)) \<and>
   date_time ((sampleReminder ''1'' 600000)\<lparr>notified := True\<rparr>) = Some 600000 \<and>
   key DueAlert ''1'' \<notin> hasPlayedSound preAlerted \<and>
   dispatches DueAlert ''1'' (tickAlerts 600000 (sampleHost Denied) preAlerted) = 1 \<and>
   dispatches DueAlert ''1''
     (fst (run (ticks [(600000, sampleHost Denied), (630000, sampleHost Denied)]) preAlerted)) \<le> 1 \<and>
   Beep \<in> set (performed (fst (snd (checkReminder 600000 (sampleHost Denied)
     ((sampleReminder ''1'' 600000)\<lparr>notified := True\<rparr>) {''1-5min''} True))))"
proof -
  have h1: "(sampleReminder ''1'' 600000)\<lparr>notified := True\<rparr> \<in> set (reminders preAlerted)"
    by (simp add: preAlerted_def)
  have h2: "distinct (map id_r (reminders preAlerted))"
    by (simp add: preAlerted_def)
  have h3: "date_time ((sampleReminder ''1'' 600000)\<lparr>notified := True\<rparr>) = Some 600000"
    by (simp add: sampleReminder_def)
  have h4: "key DueAlert (id_r ((sampleReminder ''1'' 600000)\<lparr>notified := True\<rparr>)) \<notin>
      hasPlayedSound preAlerted"
    by (simp add: preAlerted_def sampleReminder_def)
  have i: "id_r ((sampleReminder ''1'' 600000)\<lparr>notified := True\<rparr>) = ''1''"
    by (simp add: sampleReminder_def)
  have p: "hasPlayedSound preAlerted = {''1-5min''}"
    by (simp add: preAlerted_def)
  from dueAlert_window [OF h1 h2 h3 h4, of 600000 "sampleHost Denied"
      "[(600000, sampleHost Denied), (630000, sampleHost Denied)]" True]
  have "dispatches DueAlert ''1'' (tickAlerts 600000 (sampleHost Denied) preAlerted) = 1"
    and "dispatches DueAlert ''1''
     (fst (run (ticks [(600000, sampleHost Denied), (630000, sampleHost Denied)]) preAlerted)) \<le> 1"
    and "Beep \<in> set (performed (fst (snd (checkReminder 600000 (sampleHost Denied)
     ((sampleReminder ''1'' 600000)\<lparr>notified := True\<rparr>) {''1-5min''} True))))"
    unfolding i p
    by (simp_all add: performed_def playNotificationSound_def synthesise_def sampleHost_def Let_def)
  with h1 h2 h3 h4 show ?thesis unfolding i by simp
qed

text \<open>
  The window as the specification words it, \<open>T < now \<le> T + 1min\<close>, differs at both ends: a
  run one minute after the due time is inside it and dispatches nothing, a run at the due
  time is outside it and dispatches the DueAlert.
\<close>

theorem dueAlert_window_counterexample:
  "claimedDueWindow 600000 660000 \<and>
   dispatches DueAlert ''1''
     (tickAlerts 660000 (sampleHost Granted) (freshSession [sampleReminder ''1'' 600000])) = 0 \<and>
   \<not> claimedDueWindow 600000 600000 \<and>
   dispatches DueAlert ''1''
     (tickAlerts 600000 (sampleHost Granted) (freshSession [sampleReminder ''1'' 600000])) = 1"
  by (simp add: claimedDueWindow_def evaluate)

subsection \<open>The flag \<open>notified\<close>\<close>



subsection \<open>The scenario of a reminder four minutes ahead\<close>

text \<open>
  C5, as amended. With a fresh tracker and the single reminder of id 1 due at
  \<open>now0 + 4min\<close>, not notified, the run at \<open>now0 + 4min30s\<close> dispatches the DueAlert and
  nothing else (the due time is 30 s past, so the PreAlert window is closed); the next run
  at \<open>now0 + 4min40s\<close> dispatches nothing; and the run at \<open>now0 + 4min61s\<close>, more than one
  minute past the due time, dispatches nothing.
\<close>

theorem scenario_four_minutes:
  "map (\<lambda>a. (kind a, target a))
     (tickAlerts (now0 + 270000) h1 (freshSession [sampleReminder ''1'' (now0 + 240000)])) =
     [(DueAlert, ''1'')] \<and>
   tickAlerts (now0 + 280000) h2
     (tickState (now0 + 270000) h1 (freshSession [sampleReminder ''1'' (now0 + 240000)])) = [] \<and>
   tickAlerts (now0 + 301000) h3
     (tickState (now0 + 280000) h2
       (tickState (now0 + 270000) h1 (freshSession [sampleReminder ''1'' (now0 + 240000)]))) = []"
proof -
  obtain a c where "playNotificationSound ''urgent'' h1 False = (Normal, a, c)"
    by (rule sound_cases)
  then show ?thesis
    by (simp add: checkReminders_def checkReminder_def timeDiff_def freshSession_def
        sampleReminder_def)
qed

text \<open>
  The scenario as the specification tells it fails at \<open>now0 = 0\<close>: the first run dispatches
  no PreAlert but the DueAlert, and the third run dispatches no DueAlert.
\<close>

theorem scenario_four_minutes_counterexample:
  "dispatches PreAlert ''1''
     (tickAlerts 270000 (sampleHost Granted) (freshSession [sampleReminder ''1'' 240000])) = 0 \<and>
   dispatches DueAlert ''1''
     (tickAlerts 270000 (sampleHost Granted) (freshSession [sampleReminder ''1'' 240000])) = 1 \<and>
   dispatches DueAlert ''1''
     (tickAlerts 301000 (sampleHost Granted)
       (tickState 280000 (sampleHost Granted)
         (tickState 270000 (sampleHost Granted) (freshSession [sampleReminder ''1'' 240000])))) = 0"
  by (simp add: evaluate)

subsection \<open>What a dispatch does\<close>

text \<open>
  C4, evaluated at the reminder of id 1 due at 600 s in a fresh session. The run at 600 s
  dispatches the DueAlert, tells the server and puts \<^verbatim>\<open>1-now\<close> into the tracker, but leaves
  the cached \<open>notified\<close> flag false; the run at 400 s, which dispatches the PreAlert, sets it.
\<close>

theorem dueAlert_leaves_notified:
  "dispatches DueAlert ''1''
     (tickAlerts 600000 (sampleHost Granted) (freshSession [sampleReminder ''1'' 600000])) = 1 \<and>
   PutNotify ''1'' \<in> set (performed
     (tickAlerts 600000 (sampleHost Granted) (freshSession [sampleReminder ''1'' 600000]))) \<and>
   ''1-now'' \<in> hasPlayedSound
     (tickState 600000 (sampleHost Granted) (freshSession [sampleReminder ''1'' 600000])) \<and>
   map notified (reminders
     (tickState 600000 (sampleHost Granted) (freshSession [sampleReminder ''1'' 600000]))) = [False] \<and>
   map notified (reminders
     (tickState 400000 (sampleHost Granted) (freshSession [sampleReminder ''1'' 600000]))) = [True]"
  by (simp add: evaluate)

subsection \<open>One dispatch for each key while it is recorded\<close>

text \<open>
  C3, as amended. Take a key, that is a reminder id and a threshold, and any session in
  which the keys of that id are not cleared by a deletion of that reminder: runs of the
  scheduler at any times and against any hosts, refreshes of the cache, deletions of other
  reminders, deletions that the user cancels or the backend refuses. The session dispatches
  at most one alert for the key. If the key is in the tracker at the start, the session
  dispatches no alert for it, and so repeats none of its actions, and the key is still in
  the tracker at the end; if both keys of the id are in the tracker, no request
  \<^verbatim>\<open>PUT /reminders/{id}/notify\<close> is made at all. Whether a request to the server fails
  changes neither the state a run leaves nor which alerts it dispatches.
\<close>

theorem one_dispatch_per_key:
  assumes "\<not> list_ex (clears i) es"
  shows "dispatches k i (fst (run es s)) \<le> 1 \<and>
         (key k i \<in> hasPlayedSound s \<longrightarrow>
            dispatches k i (fst (run es s)) = 0 \<and> key k i \<in> hasPlayedSound (snd (run es s))) \<and>
         (key PreAlert i \<in> hasPlayedSound s \<and> key DueAlert i \<in> hasPlayedSound s \<longrightarrow>
            PutNotify i \<notin> set (performed (fst (run es s)))) \<and>
         tickState now (h\<lparr>notifyFails := f\<rparr>) s = tickState now h s \<and>
         outline (tickAlerts now (h\<lparr>notifyFails := f\<rparr>) s) = outline (tickAlerts now h s)"
proof -
  have count: "of_bool (key k i \<in> hasPlayedSound s) + dispatches k i (fst (run es s)) =
      (of_bool (key k i \<in> hasPlayedSound (snd (run es s))) :: nat)" for k
    using assms by (rule run_count)
  have once: "dispatches k i (fst (run es s)) \<le> 1"
    using count [of k]
    by (cases "key k i \<in> hasPlayedSound s"; cases "key k i \<in> hasPlayedSound (snd (run es s))")
      simp_all
  have marked: "dispatches k i (fst (run es s)) = 0 \<and> key k i \<in> hasPlayedSound (snd (run es s))"
    if "key k i \<in> hasPlayedSound s" for k
    using count [of k] that
    by (cases "key k i \<in> hasPlayedSound (snd (run es s))") simp_all
  have quiet: "PutNotify i \<notin> set (performed (fst (run es s)))"
    if "key PreAlert i \<in> hasPlayedSound s \<and> key DueAlert i \<in> hasPlayedSound s"
  proof
    assume "PutNotify i \<in> set (performed (fst (run es s)))"
    with run_put [of es s]
    have "0 < dispatches PreAlert i (fst (run es s)) + dispatches DueAlert i (fst (run es s))"
      by (rule put_dispatched)
    with marked [of PreAlert] marked [of DueAlert] that show False by simp
  qed
  from once marked quiet tick_notifyFails [where now = now and h = h and f = f and s = s]
  show ?thesis by blast
qed

text \<open>The theorem at the busy session, from the state where both alerts of reminder 1 fired.\<close>

theorem one_dispatch_per_key_witness:
  "\<not> list_ex (clears ''1'') busySession \<and>
   key PreAlert ''1'' \<in> hasPlayedSound bothFired \<and>
   key DueAlert ''1'' \<in> hasPlayedSound bothFired \<and>
   dispatches DueAlert ''1'' (fst (run busySession bothFired)) = 0 \<and>
   key DueAlert ''1'' \<in> hasPlayedSound (snd (run busySession bothFired)) \<and>
   PutNotify ''1'' \<notin> set (performed (fst (run busySession bothFired))) \<and>
   dispatches DueAlert ''1'' (fst (run busySession (freshSession [sampleReminder ''1'' 600000]))) \<le> 1"
proof -
  have h: "\<not> list_ex (clears ''1'') busySession"
    by (simp add: busySession_def)
  have k: "key PreAlert ''1'' \<in> hasPlayedSound bothFired"
    "key DueAlert ''1'' \<in> hasPlayedSound bothFired"
    by (simp_all add: bothFired_def)
  from one_dispatch_per_key [OF h, of DueAlert bothFired] k
    one_dispatch_per_key [OF h, of DueAlert "freshSession [sampleReminder ''1'' 600000]"]
  show ?thesis using h by simp
qed

text \<open>
  Without the condition on deletions the tracker does not keep a key to one dispatch. The run
  at the due time dispatches the DueAlert of reminder 1 and records \<^verbatim>\<open>1-now\<close>; the deletion
  of reminder 1 clears the key while the refresh that follows fails, so that the reminder
  stays cached; the run 30 s later dispatches the DueAlert again.
\<close>

theorem one_dispatch_per_key_counterexample:
  "''1-now'' \<in> hasPlayedSound
     (tickState 600000 (sampleHost Granted) (freshSession [sampleReminder ''1'' 600000])) \<and>
   dispatches DueAlert ''1''
     (fst (run [Tick 600000 (sampleHost Granted), Delete ''1'' True True None,
                Tick 630000 (sampleHost Granted)]
            (freshSession [sampleReminder ''1'' 600000]))) = 2"
  by (simp add: deleteReminder_def loadReminders_def evaluate)

subsection \<open>Deleting a reminder\<close>

text \<open>
  C6, as amended. When the user confirms, the backend accepts the deletion and the refresh
  that follows succeeds with reminders among which the id is no more, \<^verbatim>\<open>deleteReminder\<close>
  leaves the cache equal to the refreshed list and the tracker without both keys of the id
  (the keys are removed whatever the refresh does).
  From then on no session dispatches either alert for that id, whatever fired before the
  deletion, as long as no later refresh brings a reminder of that id back.
\<close>

theorem delete_silences_reminder:
  assumes "i \<notin> id_r ` set rs" "\<not> list_ex (returns i) es"
  shows "reminders (snd (deleteReminder i True True (Some rs) s)) = rs \<and>
         key PreAlert i \<notin> hasPlayedSound (snd (deleteReminder i True True (Some rs) s)) \<and>
         key DueAlert i \<notin> hasPlayedSound (snd (deleteReminder i True True (Some rs) s)) \<and>
         dispatches k i (fst (run es (snd (deleteReminder i True True (Some rs) s)))) = 0 \<and>
         key PreAlert i \<notin> hasPlayedSound (snd (deleteReminder i True True response s)) \<and>
         key DueAlert i \<notin> hasPlayedSound (snd (deleteReminder i True True response s))"
proof -
  have s': "snd (deleteReminder i True True (Some rs) s) =
      s\<lparr>hasPlayedSound := hasPlayedSound s - {i @ ''-5min''} - {i @ ''-now''}, reminders := rs\<rparr>"
    by (simp add: deleteReminder_def loadReminders_def)
  have keys: "key PreAlert i \<notin> hasPlayedSound (snd (deleteReminder i True True response s)) \<and>
      key DueAlert i \<notin> hasPlayedSound (snd (deleteReminder i True True response s))"
    by (cases response) (simp_all add: deleteReminder_def loadReminders_def)
  from assms(1) have "i \<notin> id_r ` set (reminders (snd (deleteReminder i True True (Some rs) s)))"
    by (simp add: s')
  then have "dispatches k i (fst (run es (snd (deleteReminder i True True (Some rs) s)))) = 0"
    using assms(2) by (rule run_absent)
  with keys show ?thesis by (simp add: s')
qed

text \<open>The theorem at the deletion of reminder 1 after its PreAlert fired.\<close>

theorem delete_silences_reminder_witness:
  "''1'' \<notin> id_r ` set [sampleReminder ''2'' 900000] \<and>
   \<not> list_ex (returns ''1'')
       [Tick 590000 (sampleHost Granted), Load (Some [sampleReminder ''2'' 900000]),
        Tick 600000 (sampleHost Granted)] \<and>
   reminders (snd (deleteReminder ''1'' True True (Some [sampleReminder ''2'' 900000]) preAlerted)) =
     [sampleReminder ''2'' 900000] \<and>
   key PreAlert ''1'' \<notin>
     hasPlayedSound (snd (deleteReminder ''1'' True True (Some [sampleReminder ''2'' 900000]) preAlerted)) \<and>
   dispatches DueAlert ''1''
     (fst (run [Tick 590000 (sampleHost Granted), Load (Some [sampleReminder ''2'' 900000]),
                Tick 600000 (sampleHost Granted)]
            (snd (deleteReminder ''1'' True True (Some [sampleReminder ''2'' 900000]) preAlerted)))) = 0"
proof -
  have h1: "''1'' \<notin> id_r ` set [sampleReminder ''2'' 900000]"
    by (simp add: sampleReminder_def)
  have h2: "\<not> list_ex (returns ''1'')
       [Tick 590000 (sampleHost Granted), Load (Some [sampleReminder ''2'' 900000]),
        Tick 600000 (sampleHost Granted)]"
    by (simp add: sampleReminder_def)
  from delete_silences_reminder [OF h1 h2, of preAlerted DueAlert] h1 h2
  show ?thesis by simp
qed

text \<open>
  When the refresh that follows the deletion fails, the cache keeps the deleted reminder
  while its keys are gone: the reminder is still cached, a run in its PreAlert window
  dispatches the PreAlert, and after a PreAlert a run at the due time dispatches the
  DueAlert.
\<close>

theorem delete_silences_reminder_counterexample:
  "reminders (snd (deleteReminder ''1'' True True None (freshSession [sampleReminder ''1'' 600000]))) =
     [sampleReminder ''1'' 600000] \<and>
   dispatches PreAlert ''1''
     (fst (run [Delete ''1'' True True None, Tick 400000 (sampleHost Granted)]
            (freshSession [sampleReminder ''1'' 600000]))) = 1 \<and>
   dispatches DueAlert ''1''
     (fst (run [Delete ''1'' True True None, Tick 600000 (sampleHost Granted)] preAlerted)) = 1"
  by (simp add: deleteReminder_def loadReminders_def preAlerted_def evaluate)

subsection \<open>Permission requests\<close>

text \<open>
  C7, as amended. The permission is requested once for every alert dispatched, not once in
  a session. A run of the scheduler that sees the permission \<open>Default\<close> calls
  \<^verbatim>\<open>Notification.requestPermission()\<close> exactly as many times as it dispatches alerts, and a
  run that sees any other permission does not call it. Over a sequence of runs, at any times
  and against any hosts, the calls are as many as the alerts dispatched by the runs that saw
  \<open>Default\<close>. The prompt that \<^verbatim>\<open>requestNotificationPermission\<close> schedules is left aside.
\<close>

theorem permission_requested_per_alert:
  "length (filter isPermissionRequest (performed (tickAlerts now h s))) =
     (if permission h = Default then length (tickAlerts now h s) else 0) \<and>
   length (filter isPermissionRequest (performed (fst (run (ticks ts) s)))) =
     alertsUnderDefault ts s"
proof
  show "length (filter isPermissionRequest (performed (tickAlerts now h s))) =
     (if permission h = Default then length (tickAlerts now h s) else 0)"
    by (rule complete_requests [OF tick_complete])
  show "length (filter isPermissionRequest (performed (fst (run (ticks ts) s)))) =
     alertsUnderDefault ts s"
    by (rule run_ticks_requests)
qed

text \<open>
  One run with two reminders in their PreAlert windows, under \<open>Default\<close>, requests the
  permission twice; so does a session of two runs for one reminder, the first in its
  PreAlert window and the second in its DueAlert window.
\<close>

theorem permission_requested_per_alert_counterexample:
  "permission (sampleHost Default) = Default \<and>
   length (filter isPermissionRequest (performed
     (tickAlerts 400000 (sampleHost Default)
        (freshSession [sampleReminder ''1'' 600000, sampleReminder ''2'' 600000])))) = 2 \<and>
   length (filter isPermissionRequest (performed
     (fst (run [Tick 400000 (sampleHost Default), Tick 600000 (sampleHost Default)]
            (freshSession [sampleReminder ''1'' 600000]))))) = 2"
  by (simp add: evaluate)

subsection \<open>A denied permission\<close>

text \<open>
  C8. In a session of runs of the scheduler that all see the permission \<open>Denied\<close>, no
  notification is created and no permission is requested, while every alert dispatched
  attempts its sound. A run under \<open>Denied\<close> dispatches the PreAlert and the DueAlert of a
  cached reminder, with unique id, under exactly the conditions of the scheduler: the
  time in the window, the key not in the tracker and, for the PreAlert, the flag
  \<open>notified\<close> false.
\<close>

theorem denied_keeps_sound:
  assumes "list_all (\<lambda>(now, h). permission h = Denied) ts"
  shows "filter isPermissionRequest (performed (fst (run (ticks ts) s))) = [] \<and>
         filter isNotificationCreated (performed (fst (run (ticks ts) s))) = [] \<and>
         list_all (\<lambda>a. list_ex isSound (actions a)) (fst (run (ticks ts) s)) \<and>
         (permission h = Denied \<and> r \<in> set (reminders s) \<and> distinct (map id_r (reminders s)) \<and>
          date_time r = Some T \<longrightarrow>
            dispatches PreAlert (id_r r) (tickAlerts now h s) =
              (if T - 300000 \<le> now \<and> now < T \<and> \<not> notified r \<and>
                  key PreAlert (id_r r) \<notin> hasPlayedSound s then 1 else 0) \<and>
            dispatches DueAlert (id_r r) (tickAlerts now h s) =
              (if T \<le> now \<and> now < T + 60000 \<and> key DueAlert (id_r r) \<notin> hasPlayedSound s
               then 1 else 0) \<and>
            list_all (\<lambda>a. list_ex isSound (actions a)) (tickAlerts now h s))"
proof (intro conjI impI)
  from run_ticks_denied [OF assms, of s]
  show "filter isPermissionRequest (performed (fst (run (ticks ts) s))) = []"
    and "filter isNotificationCreated (performed (fst (run (ticks ts) s))) = []"
    by simp_all
  show "list_all (\<lambda>a. list_ex isSound (actions a)) (fst (run (ticks ts) s))"
    by (rule run_ticks_heard)
next
  assume a: "permission h = Denied \<and> r \<in> set (reminders s) \<and> distinct (map id_r (reminders s)) \<and>
          date_time r = Some T"
  then have r: "r \<in> set (reminders s)" and d: "distinct (map id_r (reminders s))"
    and t: "date_time r = Some T" by simp_all
  from tick_own(1) [OF r d t]
  show "dispatches PreAlert (id_r r) (tickAlerts now h s) =
              (if T - 300000 \<le> now \<and> now < T \<and> \<not> notified r \<and>
                  key PreAlert (id_r r) \<notin> hasPlayedSound s then 1 else 0)" .
  from tick_own(2) [OF r d t]
  show "dispatches DueAlert (id_r r) (tickAlerts now h s) =
              (if T \<le> now \<and> now < T + 60000 \<and> key DueAlert (id_r r) \<notin> hasPlayedSound s
               then 1 else 0)" .
  show "list_all (\<lambda>a. list_ex isSound (actions a)) (tickAlerts now h s)"
    by (rule complete_heard [OF tick_complete])
qed

text \<open>The theorem at runs at 400 s and 600 s for a reminder due at 600 s.\<close>

theorem denied_keeps_sound_witness:
  "list_all (\<lambda>(now, h). permission h = Denied)
     [(400000, sampleHost Denied), (600000, sampleHost Denied)] \<and>
   filter isPermissionRequest (performed (fst (run
     (ticks [(400000, sampleHost Denied), (600000, sampleHost Denied)])
     (freshSession [sampleReminder ''1'' 600000])))) = [] \<and>
   filter isNotificationCreated (performed (fst (run
     (ticks [(400000, sampleHost Denied), (600000, sampleHost Denied)])
     (freshSession [sampleReminder ''1'' 600000])))) = [] \<and>
   list_all (\<lambda>a. list_ex isSound (actions a)) (fst (run
     (ticks [(400000, sampleHost Denied), (600000, sampleHost Denied)])
     (freshSession [sampleReminder ''1'' 600000]))) \<and>
   permission (sampleHost Denied) = Denied \<and>
   sampleReminder ''1'' 600000 \<in> set (reminders (freshSession [sampleReminder ''1'' 600000])) \<and>
   distinct (map id_r (reminders (freshSession [sampleReminder ''1'' 600000]))) \<and>
   date_time (sampleReminder ''1'' 600000) = Some 600000 \<and>
   dispatches PreAlert ''1''
     (tickAlerts 400000 (sampleHost Denied) (freshSession [sampleReminder ''1'' 600000])) = 1 \<and>
   list_all (\<lambda>a. list_ex isSound (actions a))
     (tickAlerts 400000 (sampleHost Denied) (freshSession [sampleReminder ''1'' 600000]))"
proof -
  have h: "list_all (\<lambda>(now, h). permission h = Denied)
     [(400000, sampleHost Denied), (600000, sampleHost Denied)]"
    by (simp add: sampleHost_def)
  have g: "permission (sampleHost Denied) = Denied \<and>
      sampleReminder ''1'' 600000 \<in> set (reminders (freshSession [sampleReminder ''1'' 600000])) \<and>
      distinct (map id_r (reminders (freshSession [sampleReminder ''1'' 600000]))) \<and>
      date_time (sampleReminder ''1'' 600000) = Some 600000"
    by (simp add: sampleHost_def freshSession_def sampleReminder_def)
  have e: "id_r (sampleReminder ''1'' 600000) = ''1''"
    "\<not> notified (sampleReminder ''1'' 600000)"
    "hasPlayedSound (freshSession [sampleReminder ''1'' 600000]) = {}"
    by (simp_all add: sampleReminder_def freshSession_def)
  from denied_keeps_sound [OF h, of "freshSession [sampleReminder ''1'' 600000]"
      "sampleHost Denied" "sampleReminder ''1'' 600000" 600000 400000] g
  have "filter isPermissionRequest (performed (fst (run
     (ticks [(400000, sampleHost Denied), (600000, sampleHost Denied)])
     (freshSession [sampleReminder ''1'' 600000])))) = []"
    and "filter isNotificationCreated (performed (fst (run
     (ticks [(400000, sampleHost Denied), (600000, sampleHost Denied)])
     (freshSession [sampleReminder ''1'' 600000])))) = []"
    and "list_all (\<lambda>a. list_ex isSound (actions a)) (fst (run
     (ticks [(400000, sampleHost Denied), (600000, sampleHost Denied)])
     (freshSession [sampleReminder ''1'' 600000])))"
    and "dispatches PreAlert ''1''
     (tickAlerts 400000 (sampleHost Denied) (freshSession [sampleReminder ''1'' 600000])) = 1"
    and "list_all (\<lambda>a. list_ex isSound (actions a))
     (tickAlerts 400000 (sampleHost Denied) (freshSession [sampleReminder ''1'' 600000]))"
    by (simp_all add: e)
  with h g show ?thesis by simp
qed

end
